theory Spec2Isabelle
  imports Main
begin

section \<open>Rows, expressions and queries\<close>

text \<open>
  A model instance is an object with an identity and named attributes. The identity
  \<open>oid\<close> stands for the Python object the session tracks; \<open>attrs\<close> are the
  attribute values (\<open>getattr\<close> / \<open>setattr\<close>).
\<close>

record 'v inst =
  oid :: nat
  attrs :: "string \<rightharpoonup> 'v"

text \<open>
  Boolean SQL expressions as the code builds them: a column predicate, \<open>sm.and_(*xs)\<close>
  and \<open>sm.or_(*xs)\<close>.
\<close>

datatype 'v expr =
    Pred "'v inst \<Rightarrow> bool"
  | sm_and "'v expr list"
  | sm_or "'v expr list"

fun eval_expr :: "'v expr \<Rightarrow> 'v inst \<Rightarrow> bool" where
  "eval_expr (Pred p) r = p r"
| "eval_expr (sm_and es) r = list_all (\<lambda>e. eval_expr e r) es"
| "eval_expr (sm_or es) r = list_ex (\<lambda>e. eval_expr e r) es"

text \<open>
  Order-by expressions: a sort key, or \<open>sm.desc(e)\<close>. Keys are integer valued.
\<close>

datatype 'v order_expr =
    Key "'v inst \<Rightarrow> int"
  | sm_desc "'v order_expr"

fun order_key :: "'v order_expr \<Rightarrow> 'v inst \<Rightarrow> int" where
  "order_key (Key k) r = k r"
| "order_key (sm_desc e) r = - order_key e r"

text \<open>
  A \<open>select(Model)\<close> statement: the accumulated WHERE clauses, ORDER BY clauses,
  OFFSET and LIMIT.
\<close>

record 'v stm =
  where_clauses :: "'v expr list"
  order_by_clauses :: "'v order_expr list"
  stm_offset :: "int option"
  stm_limit :: "int option"

definition select :: "'v stm" where
  "select = \<lparr>where_clauses = [], order_by_clauses = [], stm_offset = None, stm_limit = None\<rparr>"

definition stm_where :: "'v stm \<Rightarrow> 'v expr list \<Rightarrow> 'v stm" where
  "stm_where q es = q\<lparr>where_clauses := where_clauses q @ es\<rparr>"

definition stm_order_by :: "'v stm \<Rightarrow> 'v order_expr list \<Rightarrow> 'v stm" where
  "stm_order_by q es = q\<lparr>order_by_clauses := order_by_clauses q @ es\<rparr>"

definition stm_set_offset :: "'v stm \<Rightarrow> int \<Rightarrow> 'v stm" where
  "stm_set_offset q n = q\<lparr>stm_offset := Some n\<rparr>"

definition stm_set_limit :: "'v stm \<Rightarrow> int \<Rightarrow> 'v stm" where
  "stm_set_limit q n = q\<lparr>stm_limit := Some n\<rparr>"

text \<open>
  What the engine returns for a statement over a table: the rows satisfying every WHERE
  clause, stably sorted by the ORDER BY keys (first key primary; table order when there
  is none), then windowed by OFFSET and LIMIT.
\<close>

definition row_matches :: "'v expr list \<Rightarrow> 'v inst \<Rightarrow> bool" where
  "row_matches es r = list_all (\<lambda>e. eval_expr e r) es"

definition run_stm :: "'v stm \<Rightarrow> 'v inst list \<Rightarrow> 'v inst list" where
  "run_stm q tbl =
     (let matched = filter (row_matches (where_clauses q)) tbl;
          sorted_rows = foldr (\<lambda>e rs. sort_key (order_key e) rs) (order_by_clauses q) matched;
          skipped = (case stm_offset q of None \<Rightarrow> sorted_rows | Some n \<Rightarrow> drop (nat n) sorted_rows)
      in (case stm_limit q of None \<Rightarrow> skipped | Some n \<Rightarrow> take (nat n) skipped))"

section \<open>database.py: Filter, Sorting, Pagination\<close>

text \<open>
  The combinators \<open>and_\<close>, \<open>or_\<close>, \<open>asc_\<close>, \<open>desc_\<close>, \<open>page_\<close>, \<open>page_size_\<close> and
  \<open>fetch_one_more_\<close> of the source carry their class name here, since a constant name
  cannot end with an underscore.
\<close>

datatype 'v Filter = Filter (expressions: "'v expr list")

definition Filter_and :: "'v Filter \<Rightarrow> 'v expr list \<Rightarrow> 'v Filter" where
  "Filter_and self es = Filter (expressions self @ es)"

definition Filter_or :: "'v Filter \<Rightarrow> 'v expr list \<Rightarrow> 'v Filter" where
  "Filter_or self es =
     (let ors = [];
          ors = (if expressions self \<noteq> [] then ors @ [sm_and (expressions self)] else ors);
          ors = (if es \<noteq> [] then ors @ [sm_and es] else ors)
      in if ors \<noteq> [] then Filter [sm_or ors] else Filter [])"

definition Filter_apply :: "'v Filter \<Rightarrow> 'v stm \<Rightarrow> 'v stm" where
  "Filter_apply self q = stm_where q (expressions self)"

datatype py_error = IndexError | MultipleResultsFound

text \<open>\<open>self._expressions[index]\<close> on a tuple: negative indices count from the end.\<close>

definition py_getitem :: "'a list \<Rightarrow> int \<Rightarrow> py_error + 'a" where
  "py_getitem xs i =
     (let n = int (length xs); j = (if i < 0 then n + i else i)
      in if 0 \<le> j \<and> j < n then Inr (xs ! nat j) else Inl IndexError)"

definition Filter_getitem :: "'v Filter \<Rightarrow> int \<Rightarrow> py_error + 'v expr" where
  "Filter_getitem self i = py_getitem (expressions self) i"

datatype 'v Sorting = Sorting (sort_expressions: "'v order_expr list")

definition Sorting_asc :: "'v Sorting \<Rightarrow> 'v order_expr list \<Rightarrow> 'v Sorting" where
  "Sorting_asc self es = Sorting (sort_expressions self @ es)"

definition Sorting_desc :: "'v Sorting \<Rightarrow> 'v order_expr list \<Rightarrow> 'v Sorting" where
  "Sorting_desc self es = Sorting (sort_expressions self @ map sm_desc es)"

definition Sorting_apply :: "'v Sorting \<Rightarrow> 'v stm \<Rightarrow> 'v stm" where
  "Sorting_apply self q = stm_order_by q (sort_expressions self)"

record pagination =
  page :: int
  page_size :: int
  fetch_one_more :: bool

definition Pagination :: "int \<Rightarrow> int \<Rightarrow> bool \<Rightarrow> pagination" where
  "Pagination p s f = \<lparr>page = max p 1, page_size = max s 1, fetch_one_more = f\<rparr>"

definition Pagination_page :: "pagination \<Rightarrow> int \<Rightarrow> pagination" where
  "Pagination_page self p = Pagination p (page_size self) (fetch_one_more self)"

definition Pagination_page_size :: "pagination \<Rightarrow> int \<Rightarrow> pagination" where
  "Pagination_page_size self s = Pagination (page self) s (fetch_one_more self)"

definition Pagination_fetch_one_more :: "pagination \<Rightarrow> bool \<Rightarrow> pagination" where
  "Pagination_fetch_one_more self f = Pagination (page self) (page_size self) f"

definition Pagination_apply :: "pagination \<Rightarrow> 'v stm \<Rightarrow> 'v stm" where
  "Pagination_apply self q =
     (let offset = (page self - 1) * page_size self;
          limit = (if fetch_one_more self then page_size self + 1 else page_size self)
      in stm_set_limit (stm_set_offset q offset) limit)"

section \<open>The session\<close>

text \<open>
  The session is the service's collaborator. It holds the rows visible inside the
  transaction (in the engine's order), the instances registered by \<open>add\<close> and the
  identities marked by \<open>delete\<close> that are not flushed yet, whether it flushes before
  each query (\<open>autoflush\<close>, which \<open>sessionmaker\<close> turns on unless told otherwise),
  and how many times \<open>commit\<close> was called.
\<close>

record 'v session =
  table :: "'v inst list"
  pending_add :: "'v inst list"
  pending_del :: "nat list"
  autoflush :: bool
  commits :: nat

definition upsert :: "'v inst \<Rightarrow> 'v inst list \<Rightarrow> 'v inst list" where
  "upsert i tbl =
     (if list_ex (\<lambda>r. oid r = oid i) tbl
      then map (\<lambda>r. if oid r = oid i then i else r) tbl
      else tbl @ [i])"

definition flush :: "'v session \<Rightarrow> 'v session" where
  "flush db =
     db\<lparr>table := filter (\<lambda>r. oid r \<notin> set (pending_del db))
                     (fold upsert (pending_add db) (table db)),
        pending_add := [],
        pending_del := []\<rparr>"

definition pre_exec :: "'v session \<Rightarrow> 'v session" where
  "pre_exec db = (if autoflush db then flush db else db)"

definition db_exec :: "'v stm \<Rightarrow> 'v session \<Rightarrow> 'v inst list \<times> 'v session" where
  "db_exec q db = (let db' = pre_exec db in (run_stm q (table db'), db'))"

definition db_add :: "'v inst \<Rightarrow> 'v session \<Rightarrow> 'v session" where
  "db_add i db = db\<lparr>pending_add := pending_add db @ [i]\<rparr>"

definition db_add_all :: "'v inst list \<Rightarrow> 'v session \<Rightarrow> 'v session" where
  "db_add_all xs db = fold db_add xs db"

definition db_delete :: "'v inst \<Rightarrow> 'v session \<Rightarrow> 'v session" where
  "db_delete i db = db\<lparr>pending_del := pending_del db @ [oid i]\<rparr>"

definition db_commit :: "'v session \<Rightarrow> 'v session" where
  "db_commit db = (flush db)\<lparr>commits := commits db + 1\<rparr>"

text \<open>\<open>res.one_or_none()\<close>: no row, the only row, or the fault for several rows.\<close>

fun one_or_none :: "'a list \<Rightarrow> py_error + 'a option" where
  "one_or_none [] = Inr None"
| "one_or_none [r] = Inr (Some r)"
| "one_or_none (r # r' # rs) = Inl MultipleResultsFound"

section \<open>services.py: DataService\<close>

text \<open>
  What the service reads of its \<open>Model\<close>: the declared field names
  (\<open>Model.__fields__\<close>) and the primary key's column names
  (\<open>Model.__table__.primary_key.columns\<close>), both in order.
\<close>

record model =
  model_fields :: "string list"
  pk_columns :: "string list"

text \<open>
  A patch is a mapping, or a model object. Of a model object the service uses
  \<open>model_dump(exclude_unset=True, exclude_defaults=True)\<close>: the declared fields that
  were set explicitly and whose value differs from the field's default (a field with no
  default has \<open>None\<close> in \<open>obj_defaults\<close>).
\<close>

record 'v model_obj =
  obj_fields :: "string list"
  obj_values :: "string \<rightharpoonup> 'v"
  obj_fields_set :: "string set"
  obj_defaults :: "string \<rightharpoonup> 'v"

datatype 'v data = Dict "string \<rightharpoonup> 'v" | Obj "'v model_obj"

definition model_dump_set_nondefault :: "'v model_obj \<Rightarrow> (string \<rightharpoonup> 'v)" where
  "model_dump_set_nondefault p =
     (\<lambda>f. if f \<in> set (obj_fields p) \<and> f \<in> obj_fields_set p \<and> obj_values p f \<noteq> obj_defaults p f
          then obj_values p f else None)"

definition update_model :: "model \<Rightarrow> 'v inst \<Rightarrow> 'v data \<Rightarrow> 'v inst" where
  "update_model M instance vals =
     (let vals = (case vals of Dict d \<Rightarrow> d | Obj p \<Rightarrow> model_dump_set_nondefault p)
      in fold (\<lambda>field i. case vals field of
                            None \<Rightarrow> i
                          | Some v \<Rightarrow> i\<lparr>attrs := (attrs i)(field \<mapsto> v)\<rparr>)
              (model_fields M) instance)"

definition search ::
  "'v Filter option \<Rightarrow> 'v Sorting option \<Rightarrow> pagination option \<Rightarrow> 'v session
     \<Rightarrow> 'v inst list \<times> 'v session" where
  "search flt sorting pagination db =
     (let stm = select;
          stm = (case flt of Some f \<Rightarrow> Filter_apply f stm | None \<Rightarrow> stm);
          stm = (case sorting of Some s \<Rightarrow> Sorting_apply s stm | None \<Rightarrow> stm);
          stm = (case pagination of Some p \<Rightarrow> Pagination_apply p stm | None \<Rightarrow> stm)
      in db_exec stm db)"

definition get :: "'v Filter \<Rightarrow> 'v session \<Rightarrow> (py_error + 'v inst option) \<times> 'v session" where
  "get flt db =
     (let stm = select;
          stm = Filter_apply flt stm;
          (res, db') = db_exec stm db
      in (one_or_none res, db'))"

definition update ::
  "model \<Rightarrow> 'v inst \<Rightarrow> 'v data \<Rightarrow> 'v session \<Rightarrow> 'v inst \<times> 'v session" where
  "update M instance vals db =
     (let instance' = update_model M instance vals;
          db = db_add instance' db;
          db = db_commit db
      in (instance', db))"

definition delete :: "'v inst \<Rightarrow> 'v session \<Rightarrow> 'v session" where
  "delete instance db = db_delete instance db"

text \<open>
  The \<open>id\<close> argument: a scalar is wrapped into a one-element list, a tuple or list is
  taken as it is. \<open>id[i]\<close> raises \<open>IndexError\<close> when the primary key has more
  columns than \<open>id\<close> has elements.
\<close>

datatype 'v id_arg = Scalar 'v | Tuple "'v list"

fun id_list :: "'v id_arg \<Rightarrow> 'v list" where
  "id_list (Scalar v) = [v]"
| "id_list (Tuple vs) = vs"

definition col_eq :: "string \<Rightarrow> 'v \<Rightarrow> 'v expr" where
  "col_eq c v = Pred (\<lambda>r. attrs r c = Some v)"

fun pk_filter :: "string list \<Rightarrow> 'v list \<Rightarrow> nat \<Rightarrow> 'v Filter \<Rightarrow> py_error + 'v Filter" where
  "pk_filter [] ids i flt = Inr flt"
| "pk_filter (c # cs) ids i flt =
     (if i < length ids then pk_filter cs ids (i + 1) (Filter_and flt [col_eq c (ids ! i)])
      else Inl IndexError)"

definition get_by_id ::
  "model \<Rightarrow> 'v id_arg \<Rightarrow> 'v session \<Rightarrow> (py_error + 'v inst option) \<times> 'v session" where
  "get_by_id M ident db =
     (case pk_filter (pk_columns M) (id_list ident) 0 (Filter []) of
        Inl e \<Rightarrow> (Inl e, db)
      | Inr flt \<Rightarrow> get flt db)"

definition update_by_id ::
  "model \<Rightarrow> 'v id_arg \<Rightarrow> 'v data \<Rightarrow> 'v session \<Rightarrow> (py_error + 'v inst option) \<times> 'v session" where
  "update_by_id M ident vals db =
     (case get_by_id M ident db of
        (Inl e, db') \<Rightarrow> (Inl e, db')
      | (Inr None, db') \<Rightarrow> (Inr None, db')
      | (Inr (Some instance), db') \<Rightarrow>
          (let (instance', db'') = update M instance vals db' in (Inr (Some instance'), db'')))"

definition delete_by_id ::
  "model \<Rightarrow> 'v id_arg \<Rightarrow> 'v session \<Rightarrow> (py_error + bool) \<times> 'v session" where
  "delete_by_id M ident db =
     (case get_by_id M ident db of
        (Inl e, db') \<Rightarrow> (Inl e, db')
      | (Inr None, db') \<Rightarrow> (Inr False, db')
      | (Inr (Some instance), db') \<Rightarrow> (Inr True, delete instance db'))"

text \<open>
  The asynchronous generator \<open>_get_model_chunks\<close> together with the \<open>async for\<close>
  that drives it: \<open>body\<close> is what the consumer does with each chunk before the
  generator resumes, on the consumer's own state and the session. The loop may run
  forever, which is the value \<open>None\<close>.
\<close>

partial_function (option) model_chunks_loop ::
  "('v inst list \<Rightarrow> 'a \<times> 'v session \<Rightarrow> 'a \<times> 'v session) \<Rightarrow> 'v Filter option \<Rightarrow> int \<Rightarrow> int
     \<Rightarrow> 'a \<times> 'v session \<Rightarrow> ('a \<times> 'v session) option" where
  "model_chunks_loop body flt chunk_size pg st =
     (case search flt None (Some (Pagination pg chunk_size True)) (snd st) of
        (chunk, db) \<Rightarrow>
          (let has_next = (int (length chunk) = chunk_size + 1);
               st' = body (if has_next then butlast chunk else chunk) (fst st, db)
           in if has_next then model_chunks_loop body flt chunk_size (pg + 1) st'
              else Some st'))"

text \<open>
  \<open>_get_model_chunks\<close> consumed by a loop that only collects the chunks, as
  \<open>[chunk async for chunk in self._get_model_chunks(filter, chunk_size)]\<close> does.
\<close>

definition collect ::
  "'v inst list \<Rightarrow> 'v inst list list \<times> 'v session \<Rightarrow> 'v inst list list \<times> 'v session" where
  "collect = (\<lambda>chunk (acc, db). (acc @ [chunk], db))"

definition get_model_chunks ::
  "'v Filter option \<Rightarrow> int \<Rightarrow> 'v session \<Rightarrow> ('v inst list list \<times> 'v session) option" where
  "get_model_chunks flt chunk_size db = model_chunks_loop collect flt chunk_size 1 ([], db)"

definition bulk_update ::
  "model \<Rightarrow> 'v Filter \<Rightarrow> 'v data \<Rightarrow> int \<Rightarrow> 'v session \<Rightarrow> (nat \<times> 'v session) option" where
  "bulk_update M flt vals chunk_size db =
     model_chunks_loop
       (\<lambda>chunk (count, db).
          (let chunk = map (\<lambda>i. update_model M i vals) chunk;
               db = db_add_all chunk db;
               db = db_commit db
           in (count + length chunk, db)))
       (Some flt) chunk_size 1 (0, db)"

definition bulk_delete ::
  "'v Filter \<Rightarrow> int \<Rightarrow> 'v session \<Rightarrow> (nat \<times> 'v session) option" where
  "bulk_delete flt chunk_size db =
     model_chunks_loop
       (\<lambda>chunk (count, db). (count + length chunk, fold delete chunk db))
       (Some flt) chunk_size 1 (0, db)"

section \<open>Notions the properties are stated with\<close>

text \<open>
  A row matches a filter when the filtered \<open>select\<close> returns it; the rows matching an
  optional filter are what \<open>search\<close> returns for it with no sorting and no pagination;
  a row has the primary key \<open>ident\<close> when each primary-key column holds the
  corresponding element of \<open>ident\<close>.
\<close>

definition Filter_matches :: "'v Filter \<Rightarrow> 'v inst \<Rightarrow> bool" where
  "Filter_matches f r = (run_stm (Filter_apply f select) [r] = [r])"

definition matching_rows :: "'v Filter option \<Rightarrow> 'v session \<Rightarrow> 'v inst list" where
  "matching_rows flt db = fst (search flt None None db)"

definition pk_matches :: "model \<Rightarrow> 'v id_arg \<Rightarrow> 'v inst \<Rightarrow> bool" where
  "pk_matches M ident r =
     list_all (\<lambda>(c, v). attrs r c = Some v) (zip (pk_columns M) (id_list ident))"

text \<open>
  A loop of \<open>_get_model_chunks\<close> that can never end: the chunk size is \<open>-1\<close>, no
  row matches, and the consumer does not make a row match when it is handed an empty
  chunk.
\<close>

definition stays_empty ::
  "('v inst list \<Rightarrow> 'a \<times> 'v session \<Rightarrow> 'a \<times> 'v session) \<Rightarrow> 'v Filter option \<Rightarrow> int
     \<Rightarrow> 'a \<times> 'v session \<Rightarrow> bool" where
  "stays_empty body flt cs st =
     (cs = - 1 \<and> matching_rows flt (snd st) = [] \<and>
      (\<forall>a d. matching_rows flt d = [] \<longrightarrow> matching_rows flt (snd (body [] (a, d))) = []))"

section \<open>The object store of Filter objects\<close>

text \<open>
  Filter objects live in a store, addressed by position. A call of \<open>and_\<close> or
  \<open>or_\<close> on the object at \<open>self\<close> runs \<open>return Filter(...)\<close>: it allocates the
  new object at the next free address and returns that address. Neither method
  assigns to \<open>self._expressions\<close>, so neither writes to an existing address.
\<close>

type_synonym 'v heap = "'v Filter list"

datatype 'v call = Call_and "'v expr list" | Call_or "'v expr list"

fun call_method :: "nat \<Rightarrow> 'v call \<Rightarrow> 'v heap \<Rightarrow> nat \<times> 'v heap" where
  "call_method self (Call_and es) h = (length h, h @ [Filter_and (h ! self) es])"
| "call_method self (Call_or es) h = (length h, h @ [Filter_or (h ! self) es])"

fun run_calls :: "nat \<Rightarrow> 'v call list \<Rightarrow> 'v heap \<Rightarrow> 'v heap" where
  "run_calls self [] h = h"
| "run_calls self (c # cs) h = run_calls self cs (snd (call_method self c h))"

section \<open>The end-to-end scenario's model and data\<close>

text \<open>
  The model \<open>Item(id, name, price)\<close> of the scenario, the same fields under a
  two-column primary key \<open>(id, name)\<close>, four rows, the predicate
  \<open>Item.price > n\<close>, a session over given rows with nothing pending, and two
  partial-update objects of a model \<open>ItemUpdate(name = None, price = None)\<close>: one
  sets \<open>price\<close> to \<open>5\<close>, the other sets \<open>price\<close> explicitly to its default
  \<open>None\<close>.
\<close>

datatype val = IntV int | StrV string | NoneV

definition Item :: model where
  "Item = \<lparr>model_fields = [''id'', ''name'', ''price''], pk_columns = [''id'']\<rparr>"

definition ItemByName :: model where
  "ItemByName = \<lparr>model_fields = [''id'', ''name'', ''price''], pk_columns = [''id'', ''name'']\<rparr>"

definition item :: "nat \<Rightarrow> string \<Rightarrow> int \<Rightarrow> val inst" where
  "item n nm p = \<lparr>oid = n, attrs = [''id'' \<mapsto> IntV (int n), ''name'' \<mapsto> StrV nm, ''price'' \<mapsto> IntV p]\<rparr>"

definition item_a :: "val inst" where "item_a = item 1 ''a'' 1"

definition item_b :: "val inst" where "item_b = item 2 ''b'' 2"

definition item_c :: "val inst" where "item_c = item 3 ''c'' 3"

definition item_d :: "val inst" where "item_d = item 4 ''d'' 4"

definition price_gt :: "int \<Rightarrow> val expr" where
  "price_gt n = Pred (\<lambda>r. case attrs r ''price'' of Some (IntV p) \<Rightarrow> n < p | _ \<Rightarrow> False)"

definition db_of :: "val inst list \<Rightarrow> bool \<Rightarrow> val session" where
  "db_of rows af = \<lparr>table = rows, pending_add = [], pending_del = [], autoflush = af, commits = 0\<rparr>"

definition patch_price_five :: "val model_obj" where
  "patch_price_five =
     \<lparr>obj_fields = [''name'', ''price''],
      obj_values = [''name'' \<mapsto> NoneV, ''price'' \<mapsto> IntV 5],
      obj_fields_set = {''price''},
      obj_defaults = [''name'' \<mapsto> NoneV, ''price'' \<mapsto> NoneV]\<rparr>"

definition patch_price_none :: "val model_obj" where
  "patch_price_none =
     \<lparr>obj_fields = [''name'', ''price''],
      obj_values = [''name'' \<mapsto> NoneV, ''price'' \<mapsto> NoneV],
      obj_fields_set = {''price''},
      obj_defaults = [''name'' \<mapsto> NoneV, ''price'' \<mapsto> NoneV]\<rparr>"

section \<open>Queries, filters and the session\<close>

lemma Filter_matches_iff: "Filter_matches f r = row_matches (expressions f) r"
  by (simp add: Filter_matches_def run_stm_def Filter_apply_def stm_where_def select_def)

lemma run_stm_select_where:
  "run_stm (Filter_apply f select) tbl = filter (Filter_matches f) tbl"
proof -
  have "Filter_matches f = row_matches (expressions f)"
    by (rule ext) (rule Filter_matches_iff)
  then show ?thesis
    by (simp add: run_stm_def Filter_apply_def stm_where_def select_def)
qed

lemma flush_flush: "flush (flush db) = flush db"
  by (simp add: flush_def)

lemma pre_exec_idem: "pre_exec (pre_exec db) = pre_exec db"
  by (simp add: pre_exec_def flush_flush flush_def)

lemma matching_rows_eq:
  "matching_rows flt db =
     (case flt of None \<Rightarrow> table (pre_exec db) | Some f \<Rightarrow> filter (Filter_matches f) (table (pre_exec db)))"
  by (simp add: matching_rows_def search_def db_exec_def Let_def run_stm_select_where split: option.split)
     (simp add: run_stm_def select_def row_matches_def)

lemma matching_rows_pre_exec: "matching_rows flt (pre_exec db) = matching_rows flt db"
  by (simp add: matching_rows_eq pre_exec_idem split: option.split)

lemma search_page:
  "search flt None (Some (Pagination pg cs True)) db =
     (take (nat (max cs 1 + 1)) (drop (nat ((max pg 1 - 1) * max cs 1)) (matching_rows flt db)),
      pre_exec db)"
proof -
  have eq: "Filter_matches f = row_matches (expressions f)" for f :: "'a Filter"
    by (rule ext) (rule Filter_matches_iff)
  show ?thesis
  by (cases flt)
     (simp_all add: matching_rows_eq search_def db_exec_def Let_def run_stm_def select_def
        Pagination_apply_def Pagination_def stm_set_limit_def stm_set_offset_def
        Filter_apply_def stm_where_def eq row_matches_def)
qed

lemma commits_pre_exec: "commits (pre_exec db) = commits db"
  by (simp add: pre_exec_def flush_def)

lemma pre_exec_clean: "pending_add db = [] \<Longrightarrow> pending_del db = [] \<Longrightarrow> pre_exec db = db"
  by (simp add: pre_exec_def flush_def)

section \<open>Lookup by primary key\<close>

lemma pk_filter_ok:
  "i + length cs \<le> length ids \<Longrightarrow>
   pk_filter cs ids i flt = Inr (Filter (expressions flt @ map (\<lambda>(c, v). col_eq c v) (zip cs (drop i ids))))"
proof (induction cs arbitrary: i flt)
  case Nil
  then show ?case by simp
next
  case (Cons c cs)
  then have "i < length ids" by simp
  then have d: "drop i ids = ids ! i # drop (Suc i) ids"
    by (simp add: Cons_nth_drop_Suc)
  from Cons show ?case
    by (simp add: Filter_and_def d)
qed

lemma get_by_id_eq:
  assumes "length (pk_columns M) \<le> length (id_list ident)"
  shows "get_by_id M ident db = (one_or_none (filter (pk_matches M ident) (table (pre_exec db))), pre_exec db)"
proof -
  let ?f = "Filter (map (\<lambda>(c, v). col_eq c v) (zip (pk_columns M) (id_list ident)))"
  have "pk_filter (pk_columns M) (id_list ident) 0 (Filter []) = Inr ?f"
    using pk_filter_ok [of 0 "pk_columns M" "id_list ident" "Filter []"] assms by simp
  moreover have "Filter_matches ?f = pk_matches M ident"
    by (rule ext)
       (simp add: Filter_matches_iff row_matches_def pk_matches_def list_all_iff col_eq_def split_beta)
  ultimately show ?thesis
    by (simp add: get_by_id_def get_def db_exec_def Let_def run_stm_select_where)
qed

section \<open>Assigning the patched fields\<close>

lemma fold_setattr:
  "attrs (fold (\<lambda>field i. case vals field of None \<Rightarrow> i
                            | Some v \<Rightarrow> i\<lparr>attrs := (attrs i)(field \<mapsto> v)\<rparr>) fs i) f =
     (if f \<in> set fs \<and> vals f \<noteq> None then vals f else attrs i f)"
  by (induction fs arbitrary: i) (auto split: option.splits)

lemma fold_setattr_oid:
  "oid (fold (\<lambda>field i. case vals field of None \<Rightarrow> i
                            | Some v \<Rightarrow> i\<lparr>attrs := (attrs i)(field \<mapsto> v)\<rparr>) fs i) = oid i"
  by (induction fs arbitrary: i) (auto split: option.splits)

section \<open>One turn of the chunk loop\<close>

lemma chunks_step:
  "model_chunks_loop body flt cs pg (a, db) =
    (let chunk = take (nat (max cs 1 + 1)) (drop (nat ((max pg 1 - 1) * max cs 1)) (matching_rows flt db));
         has_next = (int (length chunk) = cs + 1);
         st' = body (if has_next then butlast chunk else chunk) (a, pre_exec db)
     in if has_next then model_chunks_loop body flt cs (pg + 1) st' else Some st')"
  by (subst model_chunks_loop.simps) (simp add: search_page Let_def)

lemma collect_step:
  assumes "1 \<le> cs"
  shows "model_chunks_loop collect flt cs (int k + 1) (acc, db) =
     (if (k + 1) * nat cs < length (matching_rows flt db)
      then model_chunks_loop collect flt cs (int k + 2)
             (acc @ [take (nat cs) (drop (k * nat cs) (matching_rows flt db))], pre_exec db)
      else Some (acc @ [drop (k * nat cs) (matching_rows flt db)], pre_exec db))"
proof -
  let ?m = "matching_rows flt db"
  let ?n = "nat cs"
  from assms have n: "1 \<le> ?n" "int ?n = cs" by simp_all
  have off: "nat ((max (int k + 1) 1 - 1) * max cs 1) = k * ?n"
    using assms by (simp add: max_def nat_mult_distrib)
  have lim: "nat (max cs 1 + 1) = ?n + 1"
    using assms by (simp add: max_def nat_add_distrib)
  let ?chunk = "take (?n + 1) (drop (k * ?n) ?m)"
  have "(int (length ?chunk) = cs + 1) = (length ?chunk = ?n + 1)"
    using n(2) by linarith
  also have "\<dots> = ((k + 1) * ?n < length ?m)"
    by (simp add: min_def) linarith
  finally have len: "(int (length ?chunk) = cs + 1) = ((k + 1) * ?n < length ?m)" .
  have more: "butlast ?chunk = take ?n (drop (k * ?n) ?m)" if "(k + 1) * ?n < length ?m"
    using that by (simp add: butlast_take)
  have last: "?chunk = drop (k * ?n) ?m" if "\<not> (k + 1) * ?n < length ?m"
    using that by simp
  show ?thesis
  proof (cases "(k + 1) * ?n < length ?m")
    case True
    have "model_chunks_loop collect flt cs (int k + 1) (acc, db) =
            model_chunks_loop collect flt cs (int k + 1 + 1)
              (collect (butlast ?chunk) (acc, pre_exec db))"
      by (subst chunks_step) (simp only: off lim Let_def len True if_True)
    also have "collect (butlast ?chunk) (acc, pre_exec db) =
                 (acc @ [take ?n (drop (k * ?n) ?m)], pre_exec db)"
      by (simp only: more [OF True] collect_def prod.case)
    finally show ?thesis
      using True by (simp add: add.assoc)
  next
    case False
    have "model_chunks_loop collect flt cs (int k + 1) (acc, db) =
            Some (collect ?chunk (acc, pre_exec db))"
      by (subst chunks_step) (simp only: off lim Let_def len False if_False)
    also have "collect ?chunk (acc, pre_exec db) = (acc @ [drop (k * ?n) ?m], pre_exec db)"
      by (simp only: last [OF False] collect_def prod.case)
    finally show ?thesis
      using False by simp
  qed
qed

lemma chunks_step_nonpos:
  assumes "cs \<le> 0"
  shows "model_chunks_loop body flt cs pg (a, db) =
    (let chunk = take 2 (drop (nat (max pg 1 - 1)) (matching_rows flt db));
         has_next = (int (length chunk) = cs + 1);
         st' = body (if has_next then butlast chunk else chunk) (a, pre_exec db)
     in if has_next then model_chunks_loop body flt cs (pg + 1) st' else Some st')"
proof -
  from assms have "max cs 1 = 1" by simp
  then show ?thesis
    by (subst chunks_step) (simp add: numeral_2_eq_2)
qed

lemma loop_single_chunk:
  assumes "cs \<le> 0"
      and "\<not> (cs = - 1 \<and> matching_rows flt db = [])"
      and "\<not> (cs = 0 \<and> length (matching_rows flt db) = 1)"
  shows "model_chunks_loop body flt cs 1 (a, db) =
           Some (body (take 2 (matching_rows flt db)) (a, pre_exec db))"
proof -
  let ?m = "matching_rows flt db"
  have "int (length (take 2 ?m)) \<noteq> cs + 1"
  proof (cases "cs = 0 \<or> cs = - 1")
    case True
    with assms show ?thesis by (cases ?m) (auto simp add: min_def)
  next
    case False
    with assms(1) have "cs + 1 < 0" by simp
    then show ?thesis by linarith
  qed
  then show ?thesis
    by (subst chunks_step_nonpos [OF assms(1)]) (simp add: Let_def)
qed

lemma loop_diverges_aux:
  assumes "model_chunks_loop body flt cs pg st = Some y"
  shows "\<not> stays_empty body flt cs st"
  apply (rule model_chunks_loop.raw_induct
         [where P = "\<lambda>body flt cs pg st y. \<not> stays_empty body flt cs st", OF _ assms])
  subgoal premises prems for loop body flt cs pg st y
  proof
    assume h: "stays_empty body flt cs st"
    then have srch: "search flt None (Some (Pagination pg cs True)) (snd st) = ([], pre_exec (snd st))"
      by (simp add: search_page stays_empty_def)
    let ?st' = "body [] (fst st, pre_exec (snd st))"
    from h have cs: "cs = - 1" by (simp add: stays_empty_def)
    from prems(2) [unfolded srch] have next_run: "loop body flt cs (pg + 1) ?st' = Some y"
      by (simp add: cs Let_def)
    from h have "matching_rows flt (pre_exec (snd st)) = []"
      by (simp add: matching_rows_pre_exec stays_empty_def)
    with h have "matching_rows flt (snd ?st') = []"
      unfolding stays_empty_def by blast
    with h have "stays_empty body flt cs ?st'"
      by (simp add: stays_empty_def)
    with prems(1) [OF next_run] show False
      by simp
  qed
  done

lemma loop_diverges:
  assumes "matching_rows flt db = []"
      and "\<And>a d. matching_rows flt d = [] \<Longrightarrow> matching_rows flt (snd (body [] (a, d))) = []"
  shows "model_chunks_loop body flt (- 1) pg (a, db) = None"
proof (cases "model_chunks_loop body flt (- 1) pg (a, db)")
  case None
  then show ?thesis .
next
  case (Some y)
  from loop_diverges_aux [OF Some] assms show ?thesis
    by (auto simp add: stays_empty_def)
qed

section \<open>The store only grows\<close>

lemma run_calls_prefix: "take (length h) (run_calls self cs h) = h"
proof (induction cs arbitrary: h)
  case Nil
  then show ?case by simp
next
  case (Cons c cs)
  obtain x where s: "snd (call_method self c h) = h @ [x]"
    by (cases c) simp_all
  have "take (length h) (run_calls self cs (h @ [x])) =
          take (length h) (take (length (h @ [x])) (run_calls self cs (h @ [x])))"
    by (simp add: min_def)
  also have "\<dots> = take (length h) (h @ [x])"
    by (simp only: Cons.IH)
  finally show ?case
    by (simp add: s)
qed

lemma call_method_new:
  "call_method self c h =
     (length h, h @ [case c of Call_and es \<Rightarrow> Filter_and (h ! self) es
                            | Call_or es \<Rightarrow> Filter_or (h ! self) es])"
  by (cases c) simp_all

lemma run_calls_length: "length (run_calls self cs h) = length h + length cs"
  by (induction cs arbitrary: h) (simp_all add: call_method_new)

lemma run_calls_nth:
  assumes "self < length h" and "k < length cs"
  shows "run_calls self cs h ! (length h + k) =
           (case cs ! k of Call_and es \<Rightarrow> Filter_and (h ! self) es
                         | Call_or es \<Rightarrow> Filter_or (h ! self) es)"
  using assms
proof (induction cs arbitrary: h k)
  case Nil
  then show ?case by simp
next
  case (Cons c cs)
  let ?x = "case c of Call_and es \<Rightarrow> Filter_and (h ! self) es | Call_or es \<Rightarrow> Filter_or (h ! self) es"
  let ?h = "h @ [?x]"
  have step: "run_calls self (c # cs) h = run_calls self cs ?h"
    by (simp add: call_method_new)
  show ?case
  proof (cases k)
    case 0
    have "run_calls self cs ?h ! length h = take (length ?h) (run_calls self cs ?h) ! length h"
      by simp
    also have "\<dots> = ?h ! length h"
      by (simp only: run_calls_prefix)
    finally show ?thesis
      using 0 by (simp add: call_method_new)
  next
    case (Suc j)
    with Cons.prems have j: "j < length cs" by simp
    from Cons.prems have s: "self < length ?h" by simp
    have a: "?h ! self = h ! self"
      using Cons.prems(1) by (simp add: nth_append)
    have "run_calls self cs ?h ! (length ?h + j) =
            (case cs ! j of Call_and es \<Rightarrow> Filter_and (h ! self) es
                          | Call_or es \<Rightarrow> Filter_or (h ! self) es)"
      using Cons.IH [OF s j] unfolding a .
    then show ?thesis
      using Suc by (simp add: call_method_new)
  qed
qed

section \<open>The scenario data\<close>

lemma matching_db_of:
  "matching_rows (Some f) (db_of rows af) = filter (Filter_matches f) rows"
  "matching_rows None (db_of rows af) = rows"
  by (simp_all add: matching_rows_eq db_of_def pre_exec_def flush_def)

lemma pre_exec_db_of: "pre_exec (db_of rows af) = db_of rows af"
  by (simp add: db_of_def pre_exec_def flush_def)

lemma price_matches: "Filter_matches (Filter [price_gt n]) (item k nm p) = (n < p)"
  by (simp add: Filter_matches_iff row_matches_def price_gt_def item_def)

lemma items_match:
  "Filter_matches (Filter [price_gt 0]) item_a"
  "Filter_matches (Filter [price_gt 0]) item_b"
  by (simp_all add: item_a_def item_b_def price_matches)

lemma delete_a:
  "delete item_a (db_of [item_a, item_b] af) =
     (db_of [item_a, item_b] af)\<lparr>pending_del := [oid item_a]\<rparr>"
  by (simp add: delete_def db_delete_def db_of_def)

lemma delete_b:
  "delete item_b ((db_of [item_a, item_b] af)\<lparr>pending_del := [oid item_a]\<rparr>) =
     (db_of [item_a, item_b] af)\<lparr>pending_del := [oid item_a, oid item_b]\<rparr>"
  by (simp add: delete_def db_delete_def db_of_def)

lemma flush_a:
  "pre_exec ((db_of [item_a, item_b] True)\<lparr>pending_del := [oid item_a]\<rparr>) = db_of [item_b] True"
  by (simp add: pre_exec_def flush_def db_of_def item_def item_a_def item_b_def)

lemma noflush_a:
  "pre_exec ((db_of [item_a, item_b] False)\<lparr>pending_del := ds\<rparr>) =
     (db_of [item_a, item_b] False)\<lparr>pending_del := ds\<rparr>"
  by (simp add: pre_exec_def db_of_def)

lemma table_db_of: "table (db_of rows af) = rows"
  by (simp add: db_of_def)

lemma price_row_matches: "row_matches [price_gt n] (item k nm p) = (n < p)"
  by (simp add: row_matches_def price_gt_def item_def)

lemma item_prices:
  "Filter_matches (Filter [price_gt n]) item_a = (n < 1)"
  "Filter_matches (Filter [price_gt n]) item_b = (n < 2)"
  "row_matches [price_gt n] item_a = (n < 1)"
  "row_matches [price_gt n] item_b = (n < 2)"
  by (simp_all add: item_a_def item_b_def price_matches price_row_matches)

lemma item_ids:
  "attrs item_a ''id'' = Some (IntV 1)"
  "attrs item_b ''id'' = Some (IntV 2)"
  "attrs item_a ''name'' = Some (StrV ''a'')"
  "attrs item_a ''price'' = Some (IntV 1)"
  by (simp_all add: item_a_def item_b_def item_def)

section \<open>Bulk operations with a chunk size of at most 0\<close>

text \<open>
  Outside the two special cases, \<open>bulk_delete\<close> and \<open>bulk_update\<close> with a chunk
  size of at most 0 work on one chunk, the first two matching records at most.
\<close>

lemma bulk_delete_nonpositive:
  assumes "cs \<le> 0"
      and "\<not> (cs = - 1 \<and> matching_rows (Some f) db = [])"
      and "\<not> (cs = 0 \<and> length (matching_rows (Some f) db) = 1)"
  shows "bulk_delete f cs db =
           Some (length (take 2 (matching_rows (Some f) db)),
                 fold delete (take 2 (matching_rows (Some f) db)) (pre_exec db))"
  unfolding bulk_delete_def
  by (subst loop_single_chunk [OF assms]) simp

lemma bulk_update_nonpositive:
  assumes "cs \<le> 0"
      and "\<not> (cs = - 1 \<and> matching_rows (Some f) db = [])"
      and "\<not> (cs = 0 \<and> length (matching_rows (Some f) db) = 1)"
  shows "bulk_update M f vals cs db =
           Some (length (take 2 (matching_rows (Some f) db)),
                 db_commit (db_add_all (map (\<lambda>i. update_model M i vals)
                                          (take 2 (matching_rows (Some f) db)))
                              (pre_exec db)))"
  unfolding bulk_update_def
  by (subst loop_single_chunk [OF assms]) (simp add: Let_def)

section \<open>The properties of the specification\<close>

text \<open>
  C1. The claim: with exactly two records matching the filter,
  \<open>bulk_delete(filter, chunk_size=1)\<close> returns 2 and a following \<open>search()\<close> returns
  the empty sequence. The code does otherwise. On a session that flushes before each
  query, the first page holds both records, the first is yielded and deleted, and the
  second page is read at offset 1 of the single record that is left: it is empty, so
  the result is 1 and the second record stays. On a session that does not flush, the
  result is 2, but no deletion has reached the table and \<open>search()\<close> still returns
  both records.
\<close>

theorem bulk_delete_two_records:
  "matching_rows (Some (Filter [price_gt 0])) (db_of [item_a, item_b] True) = [item_a, item_b] \<and>
   bulk_delete (Filter [price_gt 0]) 1 (db_of [item_a, item_b] True) = Some (1, db_of [item_b] True) \<and>
   fst (search None None None (db_of [item_b] True)) = [item_b] \<and>
   bulk_delete (Filter [price_gt 0]) 1 (db_of [item_a, item_b] False) =
     Some (2, (db_of [item_a, item_b] False)\<lparr>pending_del := [oid item_a, oid item_b]\<rparr>) \<and>
   fst (search None None None
          ((db_of [item_a, item_b] False)\<lparr>pending_del := [oid item_a, oid item_b]\<rparr>)) =
     [item_a, item_b]"
proof -
  let ?f = "Filter [price_gt 0]"
  have m: "matching_rows (Some ?f) (db_of [item_a, item_b] af) = [item_a, item_b]" for af
    by (simp add: matching_db_of items_match)
  have m2: "matching_rows (Some ?f) ((db_of [item_a, item_b] True)\<lparr>pending_del := [oid item_a]\<rparr>) = [item_b]"
    by (subst matching_rows_pre_exec [symmetric], subst flush_a) (simp add: matching_db_of items_match)
  have m3: "matching_rows flt ((db_of [item_a, item_b] False)\<lparr>pending_del := ds\<rparr>) =
              matching_rows flt (db_of [item_a, item_b] False)" for flt ds
    by (cases flt) (simp_all add: matching_rows_eq pre_exec_def db_of_def)
  have t: "bulk_delete ?f 1 (db_of [item_a, item_b] True) = Some (1, db_of [item_b] True)"
    unfolding bulk_delete_def
    apply (subst chunks_step)
    apply (simp add: m Let_def pre_exec_db_of delete_a)
    apply (subst chunks_step)
    apply (simp add: m2 Let_def flush_a)
    done
  have u: "bulk_delete ?f 1 (db_of [item_a, item_b] False) =
             Some (2, (db_of [item_a, item_b] False)\<lparr>pending_del := [oid item_a, oid item_b]\<rparr>)"
    unfolding bulk_delete_def
    apply (subst chunks_step)
    apply (simp add: m Let_def pre_exec_db_of delete_a)
    apply (subst chunks_step)
    apply (simp add: m3 m Let_def noflush_a delete_b)
    done
  have s1: "fst (search None None None (db_of [item_b] True)) = [item_b]"
    using matching_db_of(2) [of "[item_b]" True] by (simp add: matching_rows_def)
  have s2: "fst (search None None None
                  ((db_of [item_a, item_b] False)\<lparr>pending_del := [oid item_a, oid item_b]\<rparr>)) =
             [item_a, item_b]"
    using m3 [of None "[oid item_a, oid item_b]"] matching_db_of(2) [of "[item_a, item_b]" False]
    by (simp add: matching_rows_def)
  from m t u s1 s2 show ?thesis
    by simp
qed

text \<open>
  C2, as amended. \<open>update(instance, data)\<close> overwrites the fields declared in the
  model's schema for which the patch supplies a value, and leaves every other field
  and the object's identity unchanged; it commits once. A mapping supplies a value for
  each of its keys. A model object supplies a value for each of its fields that was set
  explicitly to a value different from the field's default.
\<close>

theorem update_partial:
  "attrs (fst (update M i (Dict d) db)) f =
     (if f \<in> set (model_fields M) \<and> d f \<noteq> None then d f else attrs i f) \<and>
   attrs (fst (update M i (Obj p) db)) f =
     (if f \<in> set (model_fields M) \<and> f \<in> set (obj_fields p) \<and> f \<in> obj_fields_set p \<and>
         obj_values p f \<noteq> obj_defaults p f \<and> obj_values p f \<noteq> None
      then obj_values p f else attrs i f) \<and>
   oid (fst (update M i vals db)) = oid i \<and>
   commits (snd (update M i vals db)) = commits db + 1"
  by (auto simp add: update_def update_model_def Let_def fold_setattr fold_setattr_oid
        model_dump_set_nondefault_def db_commit_def db_add_def flush_def)

theorem update_partial_witness:
  "attrs (fst (update Item item_a (Dict [''price'' \<mapsto> IntV 5]) (db_of [item_a] True))) ''price''
     = Some (IntV 5) \<and>
   attrs (fst (update Item item_a (Dict [''price'' \<mapsto> IntV 5]) (db_of [item_a] True))) ''name''
     = Some (StrV ''a'') \<and>
   attrs (fst (update Item item_a (Obj patch_price_five) (db_of [item_a] True))) ''price''
     = Some (IntV 5) \<and>
   attrs (fst (update Item item_a (Obj patch_price_five) (db_of [item_a] True))) ''name''
     = Some (StrV ''a'')"
  using update_partial [where M = Item and i = item_a and d = "[''price'' \<mapsto> IntV 5]"
          and p = patch_price_five and db = "db_of [item_a] True" and f = "''price''"]
        update_partial [where M = Item and i = item_a and d = "[''price'' \<mapsto> IntV 5]"
          and p = patch_price_five and db = "db_of [item_a] True" and f = "''name''"]
  by (simp add: Item_def patch_price_five_def item_ids)

text \<open>
  The claim as it was written fails for a model object: \<open>price\<close> is set explicitly,
  to the value that is its default, and the instance keeps its old price.
\<close>

theorem update_default_counterexample:
  "''price'' \<in> set (model_fields Item) \<and>
   ''price'' \<in> obj_fields_set patch_price_none \<and>
   obj_values patch_price_none ''price'' = Some NoneV \<and>
   attrs item_a ''price'' = Some (IntV 1) \<and>
   attrs (fst (update Item item_a (Obj patch_price_none) (db_of [item_a] True))) ''price''
     = Some (IntV 1)"
  by (simp add: update_def update_model_def Let_def fold_setattr model_dump_set_nondefault_def
        Item_def patch_price_none_def item_ids)

text \<open>
  C3. For every chunk size of at least 1: when exactly \<open>3 * chunk_size\<close> records
  match, \<open>_get_model_chunks\<close> ends after exactly three chunks, each of length
  \<open>chunk_size\<close>; when exactly \<open>3 * chunk_size + 1\<close> match, it ends after four chunks,
  three of length \<open>chunk_size\<close> and a last one of length 1. The chunks are the
  consecutive slices of the matching records.
\<close>

theorem chunks_exact_multiple:
  assumes "1 \<le> cs"
  shows "(length (matching_rows flt db) = 3 * nat cs \<longrightarrow>
           get_model_chunks flt cs db =
             Some ([take (nat cs) (matching_rows flt db),
                    take (nat cs) (drop (nat cs) (matching_rows flt db)),
                    drop (2 * nat cs) (matching_rows flt db)], pre_exec db) \<and>
           length (drop (2 * nat cs) (matching_rows flt db)) = nat cs) \<and>
         (length (matching_rows flt db) = 3 * nat cs + 1 \<longrightarrow>
           get_model_chunks flt cs db =
             Some ([take (nat cs) (matching_rows flt db),
                    take (nat cs) (drop (nat cs) (matching_rows flt db)),
                    take (nat cs) (drop (2 * nat cs) (matching_rows flt db)),
                    drop (3 * nat cs) (matching_rows flt db)], pre_exec db) \<and>
           length (take (nat cs) (drop (2 * nat cs) (matching_rows flt db))) = nat cs \<and>
           length (drop (3 * nat cs) (matching_rows flt db)) = 1) \<and>
         (length (matching_rows flt db) = 3 * nat cs \<or> length (matching_rows flt db) = 3 * nat cs + 1 \<longrightarrow>
           length (take (nat cs) (matching_rows flt db)) = nat cs \<and>
           length (take (nat cs) (drop (nat cs) (matching_rows flt db))) = nat cs)"
proof -
  let ?m = "matching_rows flt db"
  let ?n = "nat cs"
  from assms have n: "1 \<le> ?n" by simp
  have s0: "model_chunks_loop collect flt cs 1 (acc, d) =
     (if ?n < length (matching_rows flt d)
      then model_chunks_loop collect flt cs 2 (acc @ [take ?n (matching_rows flt d)], pre_exec d)
      else Some (acc @ [matching_rows flt d], pre_exec d))" for acc d
    using collect_step [OF assms, of flt 0 acc d] by simp
  have s1: "model_chunks_loop collect flt cs 2 (acc, d) =
     (if 2 * ?n < length (matching_rows flt d)
      then model_chunks_loop collect flt cs 3 (acc @ [take ?n (drop ?n (matching_rows flt d))], pre_exec d)
      else Some (acc @ [drop ?n (matching_rows flt d)], pre_exec d))" for acc d
    using collect_step [OF assms, of flt 1 acc d] by simp
  have s2: "model_chunks_loop collect flt cs 3 (acc, d) =
     (if 3 * ?n < length (matching_rows flt d)
      then model_chunks_loop collect flt cs 4 (acc @ [take ?n (drop (2 * ?n) (matching_rows flt d))], pre_exec d)
      else Some (acc @ [drop (2 * ?n) (matching_rows flt d)], pre_exec d))" for acc d
    using collect_step [OF assms, of flt 2 acc d] by simp
  have s3: "model_chunks_loop collect flt cs 4 (acc, d) =
     (if 4 * ?n < length (matching_rows flt d)
      then model_chunks_loop collect flt cs 5 (acc @ [take ?n (drop (3 * ?n) (matching_rows flt d))], pre_exec d)
      else Some (acc @ [drop (3 * ?n) (matching_rows flt d)], pre_exec d))" for acc d
    using collect_step [OF assms, of flt 3 acc d] by simp
  have three: "get_model_chunks flt cs db =
          Some ([take ?n ?m, take ?n (drop ?n ?m), drop (2 * ?n) ?m], pre_exec db)"
    if "length ?m = 3 * ?n"
    using that n assms
    by (simp add: get_model_chunks_def s0 s1 s2 matching_rows_pre_exec pre_exec_idem)
  have four: "get_model_chunks flt cs db =
          Some ([take ?n ?m, take ?n (drop ?n ?m), take ?n (drop (2 * ?n) ?m), drop (3 * ?n) ?m],
                pre_exec db)"
    if "length ?m = 3 * ?n + 1"
    using that n assms
    by (simp add: get_model_chunks_def s0 s1 s2 s3 matching_rows_pre_exec pre_exec_idem)
  show ?thesis
    using three four n by auto
qed

theorem chunks_exact_multiple_witness:
  "(1::int) \<le> 1 \<and>
   length (matching_rows None (db_of [item_a, item_b, item_c] True)) = 3 * nat 1 \<and>
   get_model_chunks None 1 (db_of [item_a, item_b, item_c] True) =
     Some ([[item_a], [item_b], [item_c]], db_of [item_a, item_b, item_c] True) \<and>
   length (matching_rows None (db_of [item_a, item_b, item_c, item_d] True)) = 3 * nat 1 + 1 \<and>
   get_model_chunks None 1 (db_of [item_a, item_b, item_c, item_d] True) =
     Some ([[item_a], [item_b], [item_c], [item_d]], db_of [item_a, item_b, item_c, item_d] True)"
  using chunks_exact_multiple [of 1 None "db_of [item_a, item_b, item_c] True"]
        chunks_exact_multiple [of 1 None "db_of [item_a, item_b, item_c, item_d] True"]
  by (simp add: matching_db_of pre_exec_db_of)

text \<open>
  C4. \<open>f.or_(*ps)\<close> matches a record iff the record matches all of \<open>f\<close>'s
  predicates or all of \<open>ps\<close>, when both are non-empty; when \<open>f\<close> is empty it matches
  exactly the records matching all of \<open>ps\<close>; when \<open>ps\<close> is empty it matches exactly
  the records matching \<open>f\<close>; when both are empty the result is the empty Filter, which
  matches everything.
\<close>

theorem Filter_or_matches:
  "(expressions f \<noteq> [] \<and> ps \<noteq> [] \<longrightarrow>
      Filter_matches (Filter_or f ps) r = (Filter_matches f r \<or> row_matches ps r)) \<and>
   (expressions f = [] \<longrightarrow> Filter_matches (Filter_or f ps) r = row_matches ps r) \<and>
   (ps = [] \<longrightarrow> Filter_matches (Filter_or f ps) r = Filter_matches f r) \<and>
   (expressions f = [] \<and> ps = [] \<longrightarrow>
      Filter_or f ps = Filter [] \<and> Filter_matches (Filter_or f ps) r)"
  by (simp add: Filter_matches_iff Filter_or_def row_matches_def)

theorem Filter_or_matches_witness:
  "expressions (Filter [price_gt 1]) \<noteq> [] \<and> [price_gt 0] \<noteq> [] \<and>
   Filter_matches (Filter_or (Filter [price_gt 1]) [price_gt 0]) item_a \<and>
   expressions (Filter []) = ([] :: val expr list) \<and>
   \<not> Filter_matches (Filter_or (Filter []) [price_gt 1]) item_a \<and>
   Filter_matches (Filter_or (Filter [price_gt 1]) []) item_b \<and>
   Filter_or (Filter []) [] = (Filter [] :: val Filter) \<and>
   Filter_matches (Filter_or (Filter []) []) item_a"
  using Filter_or_matches [of "Filter [price_gt 1]" "[price_gt 0]" item_a]
        Filter_or_matches [of "Filter []" "[price_gt 1]" item_a]
        Filter_or_matches [of "Filter [price_gt 1]" "[]" item_b]
        Filter_or_matches [of "Filter []" "[]" item_a]
  by (auto simp add: item_prices)

text \<open>
  C5. For all integers \<open>p\<close> and \<open>s\<close>, \<open>Pagination(p, s, fetch_one_more)\<close> stores
  \<open>page = max(p, 1)\<close> and \<open>page_size = max(s, 1)\<close>, both at least 1, and its
  \<open>apply\<close> sets the offset \<open>(page - 1) * page_size\<close> and the limit \<open>page_size\<close>, or
  \<open>page_size + 1\<close> when \<open>fetch_one_more\<close> is set, leaving the rest of the query as it
  is: the result is that window of the query's rows.
\<close>

theorem Pagination_clamp_window:
  "page (Pagination p s f) = max p 1 \<and> 1 \<le> page (Pagination p s f) \<and>
   page_size (Pagination p s f) = max s 1 \<and> 1 \<le> page_size (Pagination p s f) \<and>
   fetch_one_more (Pagination p s f) = f \<and>
   stm_offset (Pagination_apply (Pagination p s f) q) = Some ((max p 1 - 1) * max s 1) \<and>
   stm_limit (Pagination_apply (Pagination p s f) q) = Some (if f then max s 1 + 1 else max s 1) \<and>
   where_clauses (Pagination_apply (Pagination p s f) q) = where_clauses q \<and>
   order_by_clauses (Pagination_apply (Pagination p s f) q) = order_by_clauses q \<and>
   run_stm (Pagination_apply (Pagination p s f) q) tbl =
     take (nat (if f then max s 1 + 1 else max s 1))
       (drop (nat ((max p 1 - 1) * max s 1))
          (run_stm (q\<lparr>stm_offset := None, stm_limit := None\<rparr>) tbl))"
  by (simp add: Pagination_def Pagination_apply_def stm_set_limit_def stm_set_offset_def run_stm_def Let_def)

theorem Pagination_clamp_window_witness:
  "page (Pagination 0 (- 3) True) = 1 \<and> page_size (Pagination 0 (- 3) True) = 1 \<and>
   stm_offset (Pagination_apply (Pagination 3 2 False) (select :: val stm)) = Some 4 \<and>
   stm_limit (Pagination_apply (Pagination 3 2 False) (select :: val stm)) = Some 2 \<and>
   stm_limit (Pagination_apply (Pagination 3 2 True) (select :: val stm)) = Some 3"
  using Pagination_clamp_window [of 0 "- 3" True "select :: val stm" "[]"]
        Pagination_clamp_window [of 3 2 False "select :: val stm" "[]"]
        Pagination_clamp_window [of 3 2 True "select :: val stm" "[]"]
  by simp

text \<open>
  C6. \<open>get(filter)\<close> returns the record when exactly one record matches the filter,
  returns \<open>None\<close> when no record matches, and raises \<open>MultipleResultsFound\<close> when two
  or more match.
\<close>

theorem get_one_none_or_fault:
  "(matching_rows (Some f) db = [r] \<longrightarrow> get f db = (Inr (Some r), pre_exec db)) \<and>
   (matching_rows (Some f) db = [] \<longrightarrow> get f db = (Inr None, pre_exec db)) \<and>
   (2 \<le> length (matching_rows (Some f) db) \<longrightarrow>
      get f db = (Inl MultipleResultsFound, pre_exec db))"
proof -
  have g: "get f db = (one_or_none (matching_rows (Some f) db), pre_exec db)"
    by (simp add: get_def db_exec_def Let_def run_stm_select_where matching_rows_eq)
  have "2 \<le> length xs \<Longrightarrow> one_or_none xs = Inl MultipleResultsFound" for xs :: "'a inst list"
    by (cases xs rule: one_or_none.cases) simp_all
  with g show ?thesis by simp
qed

theorem get_one_none_or_fault_witness:
  "matching_rows (Some (Filter [price_gt 1])) (db_of [item_a, item_b] True) = [item_b] \<and>
   get (Filter [price_gt 1]) (db_of [item_a, item_b] True)
     = (Inr (Some item_b), db_of [item_a, item_b] True) \<and>
   matching_rows (Some (Filter [price_gt 5])) (db_of [item_a, item_b] True) = [] \<and>
   get (Filter [price_gt 5]) (db_of [item_a, item_b] True)
     = (Inr None, db_of [item_a, item_b] True) \<and>
   2 \<le> length (matching_rows (Some (Filter [price_gt 0])) (db_of [item_a, item_b] True)) \<and>
   get (Filter [price_gt 0]) (db_of [item_a, item_b] True)
     = (Inl MultipleResultsFound, db_of [item_a, item_b] True)"
  using get_one_none_or_fault [of "Filter [price_gt 1]" "db_of [item_a, item_b] True" item_b]
        get_one_none_or_fault [of "Filter [price_gt 5]" "db_of [item_a, item_b] True" item_b]
        get_one_none_or_fault [of "Filter [price_gt 0]" "db_of [item_a, item_b] True" item_b]
  by (simp add: matching_db_of pre_exec_db_of item_prices)

text \<open>
  C7, as amended. For an \<open>id\<close> with an element for every primary-key column and no
  row holding that primary key, \<open>update_by_id\<close> returns \<open>None\<close> and
  \<open>delete_by_id\<close> returns \<open>False\<close>; neither raises. The session is left as the
  lookup's query leaves it: no commit is made, and a session with nothing pending is
  unchanged.
\<close>

theorem by_id_not_found:
  assumes "length (pk_columns M) \<le> length (id_list ident)"
      and "filter (pk_matches M ident) (table (pre_exec db)) = []"
  shows "update_by_id M ident vals db = (Inr None, pre_exec db) \<and>
         delete_by_id M ident db = (Inr False, pre_exec db) \<and>
         commits (pre_exec db) = commits db \<and>
         (pending_add db = [] \<and> pending_del db = [] \<longrightarrow> pre_exec db = db)"
  using assms
  by (simp add: update_by_id_def delete_by_id_def get_by_id_eq commits_pre_exec pre_exec_clean)

theorem by_id_not_found_witness:
  "length (pk_columns Item) \<le> length (id_list (Scalar (IntV 9))) \<and>
   filter (pk_matches Item (Scalar (IntV 9))) (table (pre_exec (db_of [item_a, item_b] True))) = [] \<and>
   update_by_id Item (Scalar (IntV 9)) (Dict [''price'' \<mapsto> IntV 5]) (db_of [item_a, item_b] True)
     = (Inr None, db_of [item_a, item_b] True) \<and>
   delete_by_id Item (Scalar (IntV 9)) (db_of [item_a, item_b] True)
     = (Inr False, db_of [item_a, item_b] True) \<and>
   pending_add (db_of [item_a, item_b] True) = [] \<and>
   pending_del (db_of [item_a, item_b] True) = []"
  using by_id_not_found [of Item "Scalar (IntV 9)" "db_of [item_a, item_b] True"
          "Dict [''price'' \<mapsto> IntV 5]"]
  by (simp add: pre_exec_db_of table_db_of pk_matches_def Item_def item_ids) (simp add: db_of_def)

text \<open>
  The claim as it was written fails for an \<open>id\<close> with fewer elements than the
  primary key has columns, whatever the table holds: the empty tuple on \<open>Item\<close>
  over an empty table, and a scalar on the two-column key where no row has that
  \<open>id\<close>. Both calls raise \<open>IndexError\<close> while the filter is built.
\<close>

theorem by_id_short_id_counterexample:
  "matching_rows None (db_of [] True) = ([] :: val inst list) \<and>
   update_by_id Item (Tuple []) (Dict [''price'' \<mapsto> IntV 5]) (db_of [] True)
     = (Inl IndexError, db_of [] True) \<and>
   delete_by_id Item (Tuple []) (db_of [] True) = (Inl IndexError, db_of [] True) \<and>
   filter (\<lambda>r. attrs r ''id'' = Some (IntV 9)) (table (db_of [item_a, item_b] True)) = [] \<and>
   update_by_id ItemByName (Scalar (IntV 9)) (Dict [''price'' \<mapsto> IntV 5]) (db_of [item_a, item_b] True)
     = (Inl IndexError, db_of [item_a, item_b] True) \<and>
   delete_by_id ItemByName (Scalar (IntV 9)) (db_of [item_a, item_b] True)
     = (Inl IndexError, db_of [item_a, item_b] True)"
  by (simp add: update_by_id_def delete_by_id_def get_by_id_def Item_def ItemByName_def
        matching_db_of table_db_of item_ids)

text \<open>
  C8. An empty Filter applied to a query gives the query back; \<open>f.and_(*ps)\<close> is the
  Filter whose predicates are \<open>f\<close>'s followed by \<open>ps\<close>, and applying it adds all of
  them to the query's conditions, so that the rows returned are those matching \<open>f\<close> and
  every predicate of \<open>ps\<close>; \<open>f.and_()\<close> is \<open>f\<close> and matches the same rows.
\<close>

theorem Filter_and_apply:
  "Filter_apply (Filter []) q = q \<and>
   expressions (Filter_and f ps) = expressions f @ ps \<and>
   where_clauses (Filter_apply (Filter_and f ps) q) = where_clauses q @ expressions f @ ps \<and>
   run_stm (Filter_apply (Filter_and f ps) select) tbl =
     filter (\<lambda>r. Filter_matches f r \<and> row_matches ps r) tbl \<and>
   Filter_and f [] = f \<and>
   filter (Filter_matches (Filter_and f [])) tbl = filter (Filter_matches f) tbl"
proof -
  have "row_matches (expressions f @ ps) = (\<lambda>r. Filter_matches f r \<and> row_matches ps r)"
    by (rule ext) (simp add: Filter_matches_iff row_matches_def)
  then show ?thesis
    by (simp add: Filter_and_def Filter_apply_def stm_where_def run_stm_def select_def)
qed

theorem Filter_and_apply_witness:
  "Filter_apply (Filter []) (select :: val stm) = select \<and>
   expressions (Filter_and (Filter [price_gt 0]) [price_gt 1]) = [price_gt 0, price_gt 1] \<and>
   run_stm (Filter_apply (Filter_and (Filter [price_gt 0]) [price_gt 1]) select) [item_a, item_b]
     = [item_b]"
  using Filter_and_apply [of "select :: val stm" "Filter [price_gt 0]" "[price_gt 1]" "[item_a, item_b]"]
  by (simp add: item_prices)

text \<open>
  C9. A call of \<open>and_\<close> or \<open>or_\<close> on a Filter object returns a new object: the
  store grows by exactly one object, at an address that was not in use, and that object
  is the Filter \<open>and_\<close>, respectively \<open>or_\<close>, builds from the receiver's predicates
  and the arguments. After any sequence of such calls on the receiver every object that
  existed before is unchanged, each call's result was built from the receiver's
  original predicates, and indexing the receiver and applying it to a query give what
  they gave before the calls.
\<close>

theorem Filter_combinators_pure:
  assumes "self < length h"
  shows "fst (call_method self c h) = length h \<and>
         fst (call_method self c h) \<noteq> self \<and>
         length (snd (call_method self c h)) = length h + 1 \<and>
         take (length h) (snd (call_method self c h)) = h \<and>
         snd (call_method self (Call_and es) h) ! fst (call_method self (Call_and es) h)
           = Filter_and (h ! self) es \<and>
         expressions (snd (call_method self (Call_and es) h) ! fst (call_method self (Call_and es) h))
           = expressions (h ! self) @ es \<and>
         snd (call_method self (Call_or es) h) ! fst (call_method self (Call_or es) h)
           = Filter_or (h ! self) es \<and>
         length (run_calls self cs h) = length h + length cs \<and>
         (\<forall>k < length cs.
            run_calls self cs h ! (length h + k) =
              (case cs ! k of Call_and es \<Rightarrow> Filter_and (h ! self) es
                            | Call_or es \<Rightarrow> Filter_or (h ! self) es)) \<and>
         take (length h) (run_calls self cs h) = h \<and>
         run_calls self cs h ! self = h ! self \<and>
         Filter_getitem (run_calls self cs h ! self) i = Filter_getitem (h ! self) i \<and>
         Filter_apply (run_calls self cs h ! self) q = Filter_apply (h ! self) q"
proof -
  have "run_calls self cs h ! self = take (length h) (run_calls self cs h) ! self"
    using assms by simp
  then have same: "run_calls self cs h ! self = h ! self"
    by (simp only: run_calls_prefix)
  have new: "\<forall>k < length cs.
            run_calls self cs h ! (length h + k) =
              (case cs ! k of Call_and es \<Rightarrow> Filter_and (h ! self) es
                            | Call_or es \<Rightarrow> Filter_or (h ! self) es)"
    using assms by (simp add: run_calls_nth)
  have one: "fst (call_method self c h) = length h"
    "length (snd (call_method self c h)) = length h + 1"
    "take (length h) (snd (call_method self c h)) = h"
    by (simp_all add: call_method_new)
  from same new one assms show ?thesis
    by (simp add: run_calls_prefix run_calls_length Filter_and_def)
qed

theorem Filter_combinators_pure_witness:
  "(0::nat) < length [Filter [price_gt 0]] \<and>
   fst (call_method 0 (Call_and [price_gt 1]) [Filter [price_gt 0]]) = 1 \<and>
   snd (call_method 0 (Call_and [price_gt 1]) [Filter [price_gt 0]]) ! 1
     = Filter [price_gt 0, price_gt 1] \<and>
   snd (call_method 0 (Call_or [price_gt 2]) [Filter [price_gt 0]]) ! 1
     = Filter [sm_or [sm_and [price_gt 0], sm_and [price_gt 2]]] \<and>
   (1::nat) < length [Call_and [price_gt 1], Call_or [price_gt 2]] \<and>
   run_calls 0 [Call_and [price_gt 1], Call_or [price_gt 2]] [Filter [price_gt 0]] ! 2
     = Filter [sm_or [sm_and [price_gt 0], sm_and [price_gt 2]]] \<and>
   run_calls 0 [Call_and [price_gt 1], Call_or [price_gt 2]] [Filter [price_gt 0]] ! 0
     = Filter [price_gt 0] \<and>
   Filter_getitem
     (run_calls 0 [Call_and [price_gt 1], Call_or [price_gt 2]] [Filter [price_gt 0]] ! 0) 0
     = Inr (price_gt 0)"
  using Filter_combinators_pure [of 0 "[Filter [price_gt 0]]" "Call_and [price_gt 1]"
          "[price_gt 1]" "[Call_and [price_gt 1], Call_or [price_gt 2]]" 0 "select :: val stm"]
        Filter_combinators_pure [of 0 "[Filter [price_gt 0]]" "Call_or [price_gt 2]"
          "[price_gt 2]" "[Call_and [price_gt 1], Call_or [price_gt 2]]" 0 "select :: val stm"]
  by (simp add: Filter_getitem_def py_getitem_def Filter_and_def Filter_or_def)

text \<open>
  C10, as amended. For every chunk size of at most 0, unless the chunk size is \<open>-1\<close>
  and no record matches the filter: \<open>_get_model_chunks\<close> ends. When the chunk size is 0 and
  exactly one record matches, it yields two empty chunks. Otherwise it yields one
  chunk, the first two matching records at most, and so does it for every consumer:
  \<open>bulk_update\<close> and \<open>bulk_delete\<close> are handed that one chunk and no other.
\<close>

theorem chunks_nonpositive:
  assumes "cs \<le> 0"
      and "cs = - 1 \<longrightarrow> matching_rows flt db \<noteq> []"
  shows "get_model_chunks flt cs db =
           Some (if cs = 0 \<and> length (matching_rows flt db) = 1 then [[], []]
                 else [take 2 (matching_rows flt db)], pre_exec db) \<and>
         (\<not> (cs = 0 \<and> length (matching_rows flt db) = 1) \<longrightarrow>
            model_chunks_loop body flt cs 1 (a, db) =
              Some (body (take 2 (matching_rows flt db)) (a, pre_exec db)))"
proof (cases "cs = 0 \<and> length (matching_rows flt db) = 1")
  case True
  then obtain x where m: "matching_rows flt db = [x]"
    by (cases "matching_rows flt db") auto
  from True have cs: "cs = 0" by simp
  have "get_model_chunks flt 0 db = Some ([[], []], pre_exec db)"
    unfolding get_model_chunks_def
    apply (subst chunks_step_nonpos, simp)
    apply (simp add: m Let_def collect_def)
    apply (subst chunks_step_nonpos, simp)
    apply (simp add: matching_rows_pre_exec m Let_def pre_exec_idem)
    done
  with True show ?thesis by simp
next
  case False
  with assms have
    "model_chunks_loop collect flt cs 1 ([], db) =
       Some (collect (take 2 (matching_rows flt db)) ([], pre_exec db))"
    by (intro loop_single_chunk) auto
  moreover from False assms have
    "model_chunks_loop body flt cs 1 (a, db) =
       Some (body (take 2 (matching_rows flt db)) (a, pre_exec db))"
    by (intro loop_single_chunk) auto
  ultimately show ?thesis
    using False by (simp add: get_model_chunks_def collect_def)
qed

theorem chunks_nonpositive_witness:
  "(0::int) \<le> 0 \<and>
   get_model_chunks None 0 (db_of [item_a] True) = Some ([[], []], db_of [item_a] True) \<and>
   (- 1::int) \<le> 0 \<and>
   matching_rows None (db_of [item_a, item_b, item_c] True) \<noteq> [] \<and>
   get_model_chunks None (- 1) (db_of [item_a, item_b, item_c] True) =
     Some ([[item_a, item_b]], db_of [item_a, item_b, item_c] True) \<and>
   model_chunks_loop collect None (- 1) 1 ([], db_of [item_a, item_b, item_c] True) =
     Some ([[item_a, item_b]], db_of [item_a, item_b, item_c] True)"
  using chunks_nonpositive [of 0 None "db_of [item_a] True" collect "[]"]
        chunks_nonpositive [of "- 1" None "db_of [item_a, item_b, item_c] True" collect "[]"]
  by (simp add: matching_db_of pre_exec_db_of collect_def)

text \<open>
  The claim as it was written fails at chunk size \<open>-1\<close> when no record matches: every
  page is empty, an empty page is taken for a full one, and the iterator never ends.
\<close>

theorem chunks_minus_one_counterexample:
  "(- 1::int) \<le> 0 \<and> get_model_chunks None (- 1) (db_of [] True) = None"
proof -
  have "matching_rows None (db_of [] True) = []"
    by (simp add: matching_db_of)
  then have "model_chunks_loop collect None (- 1) 1 ([], db_of [] True) = None"
    by (rule loop_diverges) (simp add: collect_def)
  then show ?thesis
    by (simp add: get_model_chunks_def)
qed

end
